theory Spec2Isabelle
  imports Complex_Main
begin

section \<open>Bybit auto-trader: a shallow embedding of \<^verbatim>\<open>bybit_auto_trader.py\<close>\<close>

text \<open>
  Numbers. The Python program computes with IEEE doubles. Here every \<^verbatim>\<open>float\<close> is a
  \<^typ>\<open>real\<close> and every operation is exact: the theorems below are about the
  algorithm with exact arithmetic, not about binary rounding. Python \<^verbatim>\<open>int\<close>
  parameters (the window lengths) are \<^typ>\<open>int\<close>. \<^verbatim>\<open>None\<close> is \<^term>\<open>None\<close>.

  Exceptions are values of the type \<open>error\<close>; a function that can raise returns
  \<open>error + 'a\<close> with \<open>Inl\<close> the exception.
\<close>

datatype error =
    ZeroDivisionError
  | IndexError
  | RuntimeError
  | KeyboardInterrupt
  | SystemExit

subsection \<open>Configuration constants\<close>

definition SMA_FAST :: int where "SMA_FAST = 20"
definition SMA_SLOW :: int where "SMA_SLOW = 50"
definition EMA_TREND :: int where "EMA_TREND = 200"
definition RSI_LEN :: int where "RSI_LEN = 14"
definition RSI_LONG :: real where "RSI_LONG = 55"
definition RSI_SHORT :: real where "RSI_SHORT = 45"
definition ATR_LEN :: int where "ATR_LEN = 14"
definition ATR_SL_MULT :: real where "ATR_SL_MULT = 3 / 2"
definition ATR_TP_MULT :: real where "ATR_TP_MULT = 2"
definition RISK_PCT :: real where "RISK_PCT = 3 / 1000"
definition MAX_LEVERAGE :: real where "MAX_LEVERAGE = 5"
definition MAX_POS_EQUITY_FRAC :: real where "MAX_POS_EQUITY_FRAC = 2 / 10"
definition DAILY_LOSS_LIMIT :: real where "DAILY_LOSS_LIMIT = 2 / 100"
definition GLOBAL_DD_LIMIT :: real where "GLOBAL_DD_LIMIT = 5 / 100"

subsection \<open>Python list slices and indices\<close>

text \<open>\<^verbatim>\<open>xs[:n]\<close> and \<^verbatim>\<open>xs[n:]\<close> for any integer \<open>n\<close>: a negative bound counts from
  the end and is clamped at the start of the list.\<close>

definition py_take :: "int \<Rightarrow> 'a list \<Rightarrow> 'a list" where
  "py_take n xs = (if 0 \<le> n then take (nat n) xs else take (length xs - nat (- n)) xs)"

definition py_drop :: "int \<Rightarrow> 'a list \<Rightarrow> 'a list" where
  "py_drop n xs = (if 0 \<le> n then drop (nat n) xs else drop (length xs - nat (- n)) xs)"

text \<open>\<^verbatim>\<open>xs[i]\<close>: a negative index counts from the end. The result is meaningful for
  \<open>- length xs \<le> i < length xs\<close> only; Python raises IndexError outside. Every use below
  that has no explicit range test is shown to stay in range (\<open>rsi_indices_in_range\<close>).\<close>

definition py_index_ok :: "'a list \<Rightarrow> int \<Rightarrow> bool" where
  "py_index_ok xs i \<longleftrightarrow> - int (length xs) \<le> i \<and> i < int (length xs)"

definition py_index :: "'a list \<Rightarrow> int \<Rightarrow> 'a" where
  "py_index xs i = (if i < 0 then xs ! nat (int (length xs) + i) else xs ! nat i)"

subsection \<open>round_step\<close>

text \<open>\<^verbatim>\<open>math.floor(value/step)*step\<close>; the division raises for a zero step.\<close>

definition round_step :: "real \<Rightarrow> real \<Rightarrow> error + real" where
  "round_step v step =
     (if step = 0 then Inl ZeroDivisionError else Inr (of_int \<lfloor>v / step\<rfloor> * step))"

subsection \<open>Indicators\<close>

definition sma :: "real list \<Rightarrow> int \<Rightarrow> real option" where
  "sma vals n =
     (if int (length vals) < n \<or> n \<le> 0 then None
      else Some (sum_list (py_drop (- n) vals) / of_int n))"

definition ema :: "real list \<Rightarrow> int \<Rightarrow> real option" where
  "ema vals n =
     (if int (length vals) < n \<or> n \<le> 0 then None
      else let k = 2 / (of_int n + 1);
               e = sum_list (py_take n vals) / of_int n
           in Some (foldl (\<lambda>e v. v * k + e * (1 - k)) e (py_drop n vals)))"

text \<open>The body of the loop \<^verbatim>\<open>for i in range(-n,0)\<close> of \<^verbatim>\<open>rsi\<close>, on the pair
  (gains, losses).\<close>

definition rsi_step :: "real list \<Rightarrow> real \<times> real \<Rightarrow> int \<Rightarrow> real \<times> real" where
  "rsi_step vals gl i =
     (let d = py_index vals i - py_index vals (i - 1)
      in if d \<ge> 0 then (fst gl + d, snd gl) else (fst gl, snd gl - d))"

definition rsi :: "real list \<Rightarrow> int \<Rightarrow> real option" where
  "rsi vals n =
     (if int (length vals) < n + 1 then None
      else let gl = foldl (rsi_step vals) (0, 0) [- n .. - 1];
               gains = fst gl; losses = snd gl
           in if losses = 0 then Some 100
              else let rs = gains / losses in Some (100 - 100 / (1 + rs)))"

text \<open>The first loop of \<^verbatim>\<open>atr\<close>, over \<^verbatim>\<open>range(1,len(close))\<close>: \<^verbatim>\<open>high[i]\<close> and
  \<^verbatim>\<open>low[i]\<close> raise IndexError when those lists are shorter than \<^verbatim>\<open>close\<close>.\<close>

fun tr_loop :: "real list \<Rightarrow> real list \<Rightarrow> real list \<Rightarrow> nat list \<Rightarrow> real list
    \<Rightarrow> error + real list" where
  "tr_loop high low close [] trs = Inr trs"
| "tr_loop high low close (i # is) trs =
     (if i < length high \<and> i < length low
      then tr_loop high low close is
             (trs @ [max (high ! i - low ! i)
                       (max \<bar>high ! i - close ! (i - 1)\<bar> \<bar>low ! i - close ! (i - 1)\<bar>)])
      else Inl IndexError)"

definition atr :: "real list \<Rightarrow> real list \<Rightarrow> real list \<Rightarrow> int \<Rightarrow> error + real option" where
  "atr high low close n =
     (if int (length close) < n + 1 then Inr None
      else case tr_loop high low close [1 ..< length close] [] of
             Inl e \<Rightarrow> Inl e
           | Inr trs \<Rightarrow>
               if int (length trs) < n then Inr None
               else if n = 0 then Inl ZeroDivisionError
               else Inr (Some (foldl (\<lambda>a x. (a * (of_int n - 1) + x) / of_int n)
                                 (sum_list (py_take n trs) / of_int n) (py_drop n trs))))"

subsection \<open>Data: snapshot, position, instrument, orders\<close>

text \<open>The dictionary built by \<^verbatim>\<open>compute_indicators\<close>; an indicator is \<^term>\<open>None\<close>
  while its history is too short.\<close>

record snapshot =
  x_ema200 :: "real option"
  x_sfast :: "real option"
  x_sslow :: "real option"
  x_rsi :: "real option"
  x_atr :: "real option"
  x_close :: real

text \<open>\<^verbatim>\<open>Position.side\<close> is one of the strings \<^verbatim>\<open>""\<close>, \<^verbatim>\<open>"long"\<close>, \<^verbatim>\<open>"short"\<close>.\<close>

datatype side = Flat | Long | Short

record position =
  pos_side :: side
  pos_entry :: real
  pos_qty :: real
  pos_sl :: real
  pos_tp :: real

text \<open>\<^verbatim>\<open>Position()\<close>: the dataclass defaults.\<close>

definition Position0 :: position where
  "Position0 = \<lparr>pos_side = Flat, pos_entry = 0, pos_qty = 0, pos_sl = 0, pos_tp = 0\<rparr>"

record instrument =
  qty_step :: real
  min_qty :: real
  tick_size :: real
  max_leverage :: real

datatype action = Open_long | Open_short | Close_long | Close_short | Hold | Manage

datatype order_side = Buy | Sell

text \<open>The payload of \<^verbatim>\<open>/v5/order/create\<close> (category, symbol, order type and time in force
  are constants and left out).\<close>

record order =
  ord_side :: order_side
  ord_qty :: real
  ord_reduce_only :: bool
  ord_tp :: "real option"
  ord_sl :: "real option"

subsection \<open>Signal engine\<close>

text \<open>Python truthiness of an indicator value: \<^verbatim>\<open>None\<close> and \<^verbatim>\<open>0.0\<close> are both false.\<close>

definition truthy :: "real option \<Rightarrow> bool" where
  "truthy v = (case v of None \<Rightarrow> False | Some r \<Rightarrow> r \<noteq> 0)"

definition long_sig :: "snapshot \<Rightarrow> bool" where
  "long_sig x \<longleftrightarrow>
     (truthy (x_sfast x) \<and> truthy (x_sslow x) \<and> the (x_sfast x) > the (x_sslow x))
     \<and> (truthy (x_ema200 x) \<and> x_close x > the (x_ema200 x))
     \<and> (truthy (x_rsi x) \<and> the (x_rsi x) > RSI_LONG)"

definition short_sig :: "snapshot \<Rightarrow> bool" where
  "short_sig x \<longleftrightarrow>
     (truthy (x_sfast x) \<and> truthy (x_sslow x) \<and> the (x_sfast x) < the (x_sslow x))
     \<and> (truthy (x_ema200 x) \<and> x_close x < the (x_ema200 x))
     \<and> (truthy (x_rsi x) \<and> the (x_rsi x) < RSI_SHORT)"

text \<open>\<^verbatim>\<open>Bot.decide\<close> mutates \<^verbatim>\<open>self.position.sl\<close>; the model returns the action together
  with the position after the call.\<close>

definition decide :: "position \<Rightarrow> snapshot \<Rightarrow> action \<times> position" where
  "decide p x =
     (let price = x_close x in
      if pos_side p = Flat then
        (if long_sig x then (Open_long, p)
         else if short_sig x then (Open_short, p)
         else (Hold, p))
      else if pos_side p = Long then
        (let p1 = (if truthy (x_atr x)
                   then (let new_sl = max (pos_sl p) (price - ATR_SL_MULT * the (x_atr x))
                         in if new_sl > pos_sl p then p\<lparr>pos_sl := new_sl\<rparr> else p)
                   else p)
         in if short_sig x then (Close_long, p1) else (Manage, p1))
      else
        (let p1 = (if truthy (x_atr x)
                   then (let new_sl = min (pos_sl p) (price + ATR_SL_MULT * the (x_atr x))
                         in if new_sl < pos_sl p then p\<lparr>pos_sl := new_sl\<rparr> else p)
                   else p)
         in if long_sig x then (Close_short, p1) else (Manage, p1)))"

subsection \<open>Risk manager\<close>

text \<open>\<^verbatim>\<open>float(f"{qty:.6f}")\<close>: the nearest number with six decimals, ties to the even
  last digit.\<close>

definition round_half_even :: "real \<Rightarrow> int" where
  "round_half_even y =
     (let f = \<lfloor>y\<rfloor>; d = y - of_int f
      in if d < 1 / 2 then f else if d > 1 / 2 then f + 1
         else if even f then f else f + 1)"

definition fmt6 :: "real \<Rightarrow> real" where
  "fmt6 q = of_int (round_half_even (q * 1000000)) / 1000000"

text \<open>\<^verbatim>\<open>Bot.position_sizing\<close>; \<open>equity\<close> is what \<^verbatim>\<open>get_wallet_equity()\<close> returned.\<close>

definition position_sizing :: "instrument \<Rightarrow> real \<Rightarrow> real \<Rightarrow> real \<Rightarrow> error + real" where
  "position_sizing inst equity price atr_val =
     (let risk_dollars = equity * RISK_PCT;
          stop_dist = max (atr_val * ATR_SL_MULT) (price * (2 / 1000))
      in if stop_dist = 0 then Inl ZeroDivisionError
         else let qty = risk_dollars / stop_dist;
                  max_notional = equity * MAX_POS_EQUITY_FRAC * MAX_LEVERAGE
              in if price = 0 then Inl ZeroDivisionError
                 else let qty1 = min qty (max_notional / price)
                      in case round_step qty1 (qty_step inst) of
                           Inl e \<Rightarrow> Inl e
                         | Inr r \<Rightarrow> Inr (fmt6 (max r (min_qty inst))))"

text \<open>\<^verbatim>\<open>Bot.bracket_prices\<close> returns the pair \<^verbatim>\<open>(tp, sl)\<close>.\<close>

definition bracket_prices :: "instrument \<Rightarrow> side \<Rightarrow> real \<Rightarrow> real \<Rightarrow> error + (real \<times> real)" where
  "bracket_prices inst sd price atr_val =
     (let tick = tick_size inst in
      if sd = Long then
        (case round_step (price - ATR_SL_MULT * atr_val) tick of
           Inl e \<Rightarrow> Inl e
         | Inr sl \<Rightarrow>
             (case round_step (price + ATR_TP_MULT * atr_val) tick of
                Inl e \<Rightarrow> Inl e
              | Inr tp \<Rightarrow> Inr (tp, sl)))
      else
        (case round_step (price + ATR_SL_MULT * atr_val) tick of
           Inl e \<Rightarrow> Inl e
         | Inr sl \<Rightarrow>
             (case round_step (price - ATR_TP_MULT * atr_val) tick of
                Inl e \<Rightarrow> Inl e
              | Inr tp \<Rightarrow> Inr (tp, sl))))"

record bot =
  bot_instrument :: instrument
  start_equity :: real
  day_start_equity :: real
  bot_position :: position

text \<open>\<^verbatim>\<open>Bot.circuit_breakers\<close>: \<open>Inr True\<close> is the pause, \<open>Inl SystemExit\<close> the
  \<^verbatim>\<open>raise SystemExit(0)\<close>; \<open>equity\<close> is what \<^verbatim>\<open>get_wallet_equity()\<close> returned.\<close>

definition circuit_breakers :: "bot \<Rightarrow> real \<Rightarrow> error + bool" where
  "circuit_breakers b equity =
     (if day_start_equity b > 0
         \<and> (equity - day_start_equity b) / day_start_equity b \<le> - DAILY_LOSS_LIMIT
      then Inr True
      else if start_equity b > 0
         \<and> (equity - start_equity b) / start_equity b \<le> - GLOBAL_DD_LIMIT
      then Inl SystemExit
      else Inr False)"

text \<open>\<^verbatim>\<open>Bot.__init__\<close>: both baselines are the equity read at start-up, the position is
  \<^verbatim>\<open>Position()\<close>. Nothing in the program assigns the baselines again.\<close>

definition init_bot :: "instrument \<Rightarrow> real \<Rightarrow> bot" where
  "init_bot inst equity =
     \<lparr>bot_instrument = inst, start_equity = equity, day_start_equity = equity,
      bot_position = Position0\<rparr>"

subsection \<open>Exchange gateway, as seen by one cycle\<close>

text \<open>The three lists that \<^verbatim>\<open>get_klines\<close> builds and the program reads.\<close>

record klines =
  k_high :: "real list"
  k_low :: "real list"
  k_close :: "real list"

text \<open>What the exchange answers during one cycle of the loop: the equity read by
  \<^verbatim>\<open>circuit_breakers\<close>, the candles, the equity read by \<^verbatim>\<open>position_sizing\<close>, and for
  every order payload whether \<^verbatim>\<open>http_post\<close> raises (\<open>Some e\<close>) or returns.\<close>

record gateway =
  gw_equity_cb :: "error + real"
  gw_klines :: "error + klines"
  gw_equity_sz :: "error + real"
  gw_post :: "order \<Rightarrow> error option"

definition compute_indicators :: "klines \<Rightarrow> error + snapshot" where
  "compute_indicators k =
     (let c = k_close k; h = k_high k; l = k_low k in
      case atr h l c ATR_LEN of
        Inl e \<Rightarrow> Inl e
      | Inr a \<Rightarrow>
          if c = [] then Inl IndexError
          else Inr \<lparr>x_ema200 = ema c EMA_TREND, x_sfast = sma c SMA_FAST,
                    x_sslow = sma c SMA_SLOW, x_rsi = rsi c RSI_LEN, x_atr = a,
                    x_close = last c\<rparr>)"

subsection \<open>Order submission\<close>

text \<open>With \<^verbatim>\<open>DRY_RUN\<close> the payload is printed and nothing can fail; otherwise it goes to
  \<^verbatim>\<open>http_post\<close>.\<close>

definition send :: "bool \<Rightarrow> gateway \<Rightarrow> order \<Rightarrow> error option" where
  "send dry gw ord = (if dry then None else gw_post gw ord)"

text \<open>The payload of \<^verbatim>\<open>place_market_order\<close>; \<^verbatim>\<open>if tp:\<close> and \<^verbatim>\<open>if sl:\<close> drop a level
  that is \<^verbatim>\<open>0.0\<close>.\<close>

definition place_market_order :: "side \<Rightarrow> real \<Rightarrow> real \<Rightarrow> real \<Rightarrow> order" where
  "place_market_order sd qty tp sl =
     \<lparr>ord_side = (if sd = Long then Buy else Sell), ord_qty = qty, ord_reduce_only = False,
      ord_tp = (if tp \<noteq> 0 then Some tp else None),
      ord_sl = (if sl \<noteq> 0 then Some sl else None)\<rparr>"

text \<open>The reduce-only market payload of the two closing paths of \<^verbatim>\<open>Bot.loop\<close>.\<close>

definition reduce_only :: "order_side \<Rightarrow> real \<Rightarrow> order" where
  "reduce_only os qty =
     \<lparr>ord_side = os, ord_qty = qty, ord_reduce_only = True, ord_tp = None, ord_sl = None\<rparr>"

subsection \<open>One cycle of \<^verbatim>\<open>Bot.loop\<close>\<close>

text \<open>Each stage returns the position after it, the orders it handed to \<open>send\<close>, and the
  exception that ended it, if any. An assignment to \<^verbatim>\<open>self.position\<close> that follows a
  raising call does not happen.

  The stop-loss block of the source (the lines after \<^verbatim>\<open>if self.position.side:\<close>) writes its
  f-strings with backslash-escaped quotes and puts \<^verbatim>\<open>if DRY_RUN: ...; else: ...\<close> on one
  line. It is read here as the text evidently means, the same way as the closing branch
  just above it: build the payload, print it under \<^verbatim>\<open>DRY_RUN\<close> and post it otherwise,
  then reset the position.\<close>

type_synonym stage = "position \<times> order list \<times> error option"

definition open_position ::
    "bool \<Rightarrow> gateway \<Rightarrow> instrument \<Rightarrow> position \<Rightarrow> side \<Rightarrow> real \<Rightarrow> real \<Rightarrow> stage" where
  "open_position dry gw inst p sd price a =
     (case gw_equity_sz gw of
        Inl e \<Rightarrow> (p, [], Some e)
      | Inr equity \<Rightarrow>
          (case position_sizing inst equity price a of
             Inl e \<Rightarrow> (p, [], Some e)
           | Inr qty \<Rightarrow>
               (case bracket_prices inst sd price a of
                  Inl e \<Rightarrow> (p, [], Some e)
                | Inr (tp, sl) \<Rightarrow>
                    (let ord = place_market_order sd qty tp sl in
                     case send dry gw ord of
                       Some e \<Rightarrow> (p, [ord], Some e)
                     | None \<Rightarrow>
                         (\<lparr>pos_side = sd, pos_entry = price, pos_qty = qty,
                           pos_sl = sl, pos_tp = tp\<rparr>, [ord], None)))))"

definition close_position :: "bool \<Rightarrow> gateway \<Rightarrow> position \<Rightarrow> order_side \<Rightarrow> stage" where
  "close_position dry gw p os =
     (let ord = reduce_only os (pos_qty p) in
      case send dry gw ord of
        Some e \<Rightarrow> (p, [ord], Some e)
      | None \<Rightarrow> (Position0, [ord], None))"

text \<open>The \<^verbatim>\<open>if\<close>/\<^verbatim>\<open>elif\<close> chain on \<^verbatim>\<open>action\<close>.\<close>

definition act :: "bool \<Rightarrow> gateway \<Rightarrow> instrument \<Rightarrow> position \<Rightarrow> snapshot \<Rightarrow> action \<Rightarrow> stage" where
  "act dry gw inst p x a =
     (let price = x_close x in
      if a = Open_long \<and> truthy (x_atr x)
        then open_position dry gw inst p Long price (the (x_atr x))
      else if a = Open_short \<and> truthy (x_atr x)
        then open_position dry gw inst p Short price (the (x_atr x))
      else if (a = Close_long \<or> a = Close_short) \<and> pos_side p \<noteq> Flat
        then close_position dry gw p (if pos_side p = Long then Sell else Buy)
      else (p, [], None))"

text \<open>The client-side stop: \<^verbatim>\<open>if self.position.side: ...\<close>.\<close>

definition stop_check :: "bool \<Rightarrow> gateway \<Rightarrow> position \<Rightarrow> real \<Rightarrow> stage" where
  "stop_check dry gw p price =
     (if pos_side p \<noteq> Flat then
        (if pos_side p = Long \<and> price \<le> pos_sl p then close_position dry gw p Sell
         else if pos_side p = Short \<and> price \<ge> pos_sl p then close_position dry gw p Buy
         else (p, [], None))
      else (p, [], None))"

text \<open>From \<^verbatim>\<open>action=self.decide(x)\<close> to the end of the \<^verbatim>\<open>try\<close> body.\<close>

definition trade :: "bool \<Rightarrow> gateway \<Rightarrow> instrument \<Rightarrow> position \<Rightarrow> snapshot \<Rightarrow> stage" where
  "trade dry gw inst p x =
     (case decide p x of
        (a, p1) \<Rightarrow>
          (case act dry gw inst p1 x a of
             (p2, os2, Some e) \<Rightarrow> (p2, os2, Some e)
           | (p2, os2, None) \<Rightarrow>
               (case stop_check dry gw p2 (x_close x) of
                  (p3, os3, err) \<Rightarrow> (p3, os2 @ os3, err))))"

text \<open>How a cycle ends: the normal sleep, the 60 second pause, a caught exception
  (\<^verbatim>\<open>except Exception\<close>), \<^verbatim>\<open>break\<close> on KeyboardInterrupt, or SystemExit leaving the loop
  uncaught.\<close>

datatype outcome = Slept | Paused | Warned error | Stopped | Exited

definition raised :: "error \<Rightarrow> outcome" where
  "raised e = (if e = KeyboardInterrupt then Stopped
               else if e = SystemExit then Exited else Warned e)"

definition cycle :: "bool \<Rightarrow> gateway \<Rightarrow> bot \<Rightarrow> bot \<times> order list \<times> outcome" where
  "cycle dry gw b =
     (case gw_equity_cb gw of
        Inl e \<Rightarrow> (b, [], raised e)
      | Inr equity \<Rightarrow>
          (case circuit_breakers b equity of
             Inl e \<Rightarrow> (b, [], raised e)
           | Inr True \<Rightarrow> (b, [], Paused)
           | Inr False \<Rightarrow>
               (case gw_klines gw of
                  Inl e \<Rightarrow> (b, [], raised e)
                | Inr k \<Rightarrow>
                    (case compute_indicators k of
                       Inl e \<Rightarrow> (b, [], raised e)
                     | Inr x \<Rightarrow>
                         (case trade dry gw (bot_instrument b) (bot_position b) x of
                            (p, os, err) \<Rightarrow>
                              (b\<lparr>bot_position := p\<rparr>, os,
                               case err of None \<Rightarrow> Slept | Some e \<Rightarrow> raised e))))))"

text \<open>\<^verbatim>\<open>while True\<close>, run against the exchange's answers for finitely many cycles: the bot
  and the orders after them, and whether the loop was left.\<close>

fun loop :: "bool \<Rightarrow> bot \<Rightarrow> gateway list \<Rightarrow> bot \<times> order list \<times> bool" where
  "loop dry b [] = (b, [], False)"
| "loop dry b (gw # gws) =
     (case cycle dry gw b of
        (b1, os1, out) \<Rightarrow>
          if out = Stopped \<or> out = Exited then (b1, os1, True)
          else (case loop dry b1 gws of (b2, os2, left) \<Rightarrow> (b2, os1 @ os2, left)))"

text \<open>The sequence of Signal Engine evaluations on one position: the positions after
  each call of \<^verbatim>\<open>decide\<close>, the first being the starting position.\<close>

fun decide_trace :: "position \<Rightarrow> snapshot list \<Rightarrow> position list" where
  "decide_trace p [] = [p]"
| "decide_trace p (x # xs) = p # decide_trace (snd (decide p x)) xs"

subsection \<open>The position invariant\<close>

text \<open>A flat position carries no quantity and no bracket levels.\<close>

definition pos_inv :: "position \<Rightarrow> bool" where
  "pos_inv p \<longleftrightarrow> (pos_side p = Flat \<longrightarrow> pos_qty p = 0 \<and> pos_sl p = 0 \<and> pos_tp p = 0)"

subsection \<open>RSI as the specification words it\<close>

text \<open>The consecutive differences of a series.\<close>

definition price_diffs :: "real list \<Rightarrow> real list" where
  "price_diffs xs = map (\<lambda>i. xs ! (i + 1) - xs ! i) [0 ..< length xs - 1]"

text \<open>Over the last \<open>n\<close> differences: the sum of the gains, the sum of the absolute
  losses; 100 when the losses are zero, else \<open>100 - 100 / (1 + gains / losses)\<close>. This
  definition follows the specification, not the source; \<open>rsi\<close> above is the source.\<close>

definition rsi_spec :: "real list \<Rightarrow> int \<Rightarrow> real" where
  "rsi_spec vals n =
     (let ds = drop (length (price_diffs vals) - nat n) (price_diffs vals);
          gains = sum_list (filter (\<lambda>d. d > 0) ds);
          losses = sum_list (map abs (filter (\<lambda>d. d < 0) ds))
      in if losses = 0 then 100 else 100 - 100 / (1 + gains / losses))"

subsection \<open>Example data\<close>

text \<open>Concrete inputs on which the model is run below: an instrument with the steps of
  ETHUSDT, a market that falls by one unit a candle for 200 candles and one that rises
  by one unit a candle, and the bot of the specification's scenario C (long, stop at 97,
  the next close at 96.5).\<close>

definition eth_spec :: instrument where
  "eth_spec = \<lparr>qty_step = 1 / 100, min_qty = 1 / 100, tick_size = 1 / 100, max_leverage = 100\<rparr>"

definition falling_closes :: "real list" where
  "falling_closes = map (\<lambda>i. of_int (300 - i)) [0 .. 199]"

definition falling_klines :: klines where
  "falling_klines =
     \<lparr>k_high = map (\<lambda>c. c + 1) falling_closes, k_low = map (\<lambda>c. c - 1) falling_closes,
      k_close = falling_closes\<rparr>"

definition rising_closes :: "real list" where
  "rising_closes = map (\<lambda>i. of_int (101 + i)) [0 .. 199]"

definition rising_klines :: klines where
  "rising_klines =
     \<lparr>k_high = map (\<lambda>c. c + 1) rising_closes, k_low = map (\<lambda>c. c - 1) rising_closes,
      k_close = rising_closes\<rparr>"

definition rising_gateway :: gateway where
  "rising_gateway =
     \<lparr>gw_equity_cb = Inr 10000, gw_klines = Inr rising_klines,
      gw_equity_sz = Inr 10000, gw_post = (\<lambda>_. None)\<rparr>"

definition long_at_97 :: position where
  "long_at_97 = \<lparr>pos_side = Long, pos_entry = 100, pos_qty = 1 / 2, pos_sl = 97, pos_tp = 104\<rparr>"

definition short_at_103 :: position where
  "short_at_103 = \<lparr>pos_side = Short, pos_entry = 100, pos_qty = 1 / 2, pos_sl = 103, pos_tp = 96\<rparr>"

definition scenario_c_bot :: bot where
  "scenario_c_bot =
     \<lparr>bot_instrument = eth_spec, start_equity = 10000, day_start_equity = 10000,
      bot_position = long_at_97\<rparr>"

definition scenario_c_klines :: klines where
  "scenario_c_klines = \<lparr>k_high = [97], k_low = [96], k_close = [193 / 2]\<rparr>"

definition scenario_c_gateway :: gateway where
  "scenario_c_gateway =
     \<lparr>gw_equity_cb = Inr 10000, gw_klines = Inr scenario_c_klines,
      gw_equity_sz = Inr 10000, gw_post = (\<lambda>_. None)\<rparr>"

text \<open>A snapshot with only the close and the ATR set, and one on which the long entry
  condition holds.\<close>

definition bare_snapshot :: "real \<Rightarrow> real option \<Rightarrow> snapshot" where
  "bare_snapshot c a =
     \<lparr>x_ema200 = None, x_sfast = None, x_sslow = None, x_rsi = None, x_atr = a, x_close = c\<rparr>"

definition long_snapshot :: "real option \<Rightarrow> snapshot" where
  "long_snapshot a =
     \<lparr>x_ema200 = Some 95, x_sfast = Some 99, x_sslow = Some 98, x_rsi = Some 60,
      x_atr = a, x_close = 100\<rparr>"

section \<open>Properties\<close>

subsection \<open>Indicators and their warm-up\<close>

lemma tr_loop_ok:
  "\<forall>i \<in> set is. i < length high \<and> i < length low \<Longrightarrow>
   \<exists>trs'. tr_loop high low close is trs = Inr trs' \<and> length trs' = length trs + length is"
proof (induction "is" arbitrary: trs)
  case Nil
  then show ?case by simp
next
  case (Cons i "is")
  let ?t = "trs @ [max (high ! i - low ! i)
                       (max \<bar>high ! i - close ! (i - 1)\<bar> \<bar>low ! i - close ! (i - 1)\<bar>)]"
  from Cons.prems have rest: "\<forall>j \<in> set is. j < length high \<and> j < length low" by simp
  from Cons.IH[OF rest, of ?t] obtain trs' where
    "tr_loop high low close is ?t = Inr trs'" "length trs' = length ?t + length is" by blast
  with Cons.prems show ?case by simp
qed

text \<open>The loop of \<^verbatim>\<open>rsi\<close> reads \<^verbatim>\<open>values[i]\<close> and \<^verbatim>\<open>values[i-1]\<close> without a test; past the
  length guard both indices are in range, so no IndexError is lost in the model.\<close>

lemma rsi_indices_in_range:
  assumes "\<not> int (length vals) < n + 1" "i \<in> set [- n .. - 1]"
  shows "py_index_ok vals i \<and> py_index_ok vals (i - 1)"
  using assms by (auto simp: py_index_ok_def)

text \<open>
  Claim C6. A series shorter than an indicator's required length (fewer than \<open>n\<close> points
  for \<open>sma\<close> and \<open>ema\<close>, fewer than \<open>n + 1\<close> for \<open>rsi\<close> and for the closes of \<open>atr\<close>) makes
  the indicator return \<^verbatim>\<open>None\<close>, never a number. With sufficient history, for a window
  \<open>n > 0\<close> (and, for \<open>atr\<close>, high and low lists as long as the closes, which is how
  \<^verbatim>\<open>get_klines\<close> builds them), each indicator returns a number.
\<close>

theorem indicators_unavailable_when_short:
  "(int (length xs) < n \<longrightarrow> sma xs n = None \<and> ema xs n = None)
   \<and> (int (length xs) < n + 1 \<longrightarrow> rsi xs n = None \<and> atr hs ls xs n = Inr None)
   \<and> (0 < n \<and> n \<le> int (length ys) \<longrightarrow> (\<exists>r. sma ys n = Some r) \<and> (\<exists>r. ema ys n = Some r))
   \<and> (0 < n \<and> n + 1 \<le> int (length ys) \<longrightarrow> (\<exists>r. rsi ys n = Some r))
   \<and> (0 < n \<and> n + 1 \<le> int (length ys) \<and> length ys \<le> length hy \<and> length ys \<le> length ly
        \<longrightarrow> (\<exists>r. atr hy ly ys n = Inr (Some r)))"
proof -
  have short1: "int (length xs) < n \<longrightarrow> sma xs n = None \<and> ema xs n = None"
    by (simp add: sma_def ema_def)
  have short2: "int (length xs) < n + 1 \<longrightarrow> rsi xs n = None \<and> atr hs ls xs n = Inr None"
    by (simp add: rsi_def atr_def)
  have long1: "0 < n \<and> n \<le> int (length ys)
      \<longrightarrow> (\<exists>r. sma ys n = Some r) \<and> (\<exists>r. ema ys n = Some r)"
    by (simp add: sma_def ema_def Let_def)
  have long2: "0 < n \<and> n + 1 \<le> int (length ys) \<longrightarrow> (\<exists>r. rsi ys n = Some r)"
    by (simp add: rsi_def Let_def)
  have long3: "\<exists>r. atr hy ly ys n = Inr (Some r)"
    if h: "0 < n \<and> n + 1 \<le> int (length ys) \<and> length ys \<le> length hy \<and> length ys \<le> length ly"
  proof -
    have "\<forall>i \<in> set [1 ..< length ys]. i < length hy \<and> i < length ly"
      using h by auto
    from tr_loop_ok[OF this, of ys "[]"]
    obtain trs where t: "tr_loop hy ly ys [1 ..< length ys] [] = Inr trs"
      and l: "length trs = length ys - 1" by auto
    have "\<not> int (length trs) < n" using h l by linarith
    then show ?thesis using h t by (simp add: atr_def)
  qed
  from short1 short2 long1 long2 long3 show ?thesis by blast
qed

theorem indicators_unavailable_when_short_witness:
  "int (length [1, 2 :: real]) < 3 \<and> sma [1, 2] 3 = None \<and> ema [1, 2] 3 = None
   \<and> int (length [1, 2, 3 :: real]) < 3 + 1 \<and> rsi [1, 2, 3] 3 = None
   \<and> atr [1, 2, 3] [1, 2, 3] [1, 2, 3] 3 = Inr None
   \<and> (0::int) < 3 \<and> 3 + 1 \<le> int (length [1, 2, 4, 3 :: real])
   \<and> (\<exists>r. sma [1, 2, 4, 3] 3 = Some r) \<and> (\<exists>r. ema [1, 2, 4, 3] 3 = Some r)
   \<and> (\<exists>r. rsi [1, 2, 4, 3] 3 = Some r)
   \<and> (\<exists>r. atr [2, 3, 5, 4] [1, 1, 3, 2] [1, 2, 4, 3] 3 = Inr (Some r))"
  using indicators_unavailable_when_short
      [of "[1, 2, 3]" 3 "[1, 2, 3]" "[1, 2, 3]" "[1, 2, 4, 3]" "[2, 3, 5, 4]" "[1, 1, 3, 2]"]
    indicators_unavailable_when_short
      [of "[1, 2]" 3 "[]" "[]" "[1, 2, 4, 3]" "[2, 3, 5, 4]" "[1, 1, 3, 2]"]
  by simp

subsection \<open>RSI\<close>

lemma rsi_fold:
  "foldl (rsi_step vals) (g, l) is =
     (g + sum_list (filter (\<lambda>d. d > 0) (map (\<lambda>i. py_index vals i - py_index vals (i - 1)) is)),
      l + sum_list (map abs (filter (\<lambda>d. d < 0)
                      (map (\<lambda>i. py_index vals i - py_index vals (i - 1)) is))))"
proof (induction "is" arbitrary: g l)
  case Nil
  then show ?case by simp
next
  case (Cons i "is")
  show ?case
  proof (cases "py_index vals i - py_index vals (i - 1) \<ge> 0")
    case True
    then have "rsi_step vals (g, l) i = (g + (py_index vals i - py_index vals (i - 1)), l)"
      by (simp add: rsi_step_def)
    with True show ?thesis by (simp add: Cons.IH)
  next
    case False
    then have "rsi_step vals (g, l) i = (g, l - (py_index vals i - py_index vals (i - 1)))"
      by (simp add: rsi_step_def)
    with False show ?thesis by (simp add: Cons.IH)
  qed
qed

text \<open>The differences the loop of \<^verbatim>\<open>rsi\<close> visits are the last \<open>n\<close> consecutive
  differences of the series.\<close>

lemma last_diffs:
  assumes "n + 1 \<le> int (length vals)"
  shows "map (\<lambda>i. py_index vals i - py_index vals (i - 1)) [- n .. - 1]
         = drop (length (price_diffs vals) - nat n) (price_diffs vals)"
proof (cases "n \<le> 0")
  case True
  then have "[- n .. - 1] = []" by simp
  with True show ?thesis by simp
next
  case False
  define m where "m = nat n"
  define L where "L = length vals"
  have n: "n = int m" and m: "0 < m" "m + 1 \<le> L"
    using False assms by (auto simp: m_def L_def)
  have ld: "length (price_diffs vals) = L - 1" by (simp add: price_diffs_def L_def)
  show ?thesis
  proof (rule nth_equalityI)
    show "length (map (\<lambda>i. py_index vals i - py_index vals (i - 1)) [- n .. - 1])
          = length (drop (length (price_diffs vals) - nat n) (price_diffs vals))"
      using m by (simp add: ld n)
  next
    fix k assume "k < length (map (\<lambda>i. py_index vals i - py_index vals (i - 1)) [- n .. - 1])"
    then have k: "k < m" by (simp add: n)
    define j where "j = L - 1 - m + k"
    have j: "j + 1 < L" using m k by (simp add: j_def)
    have idx: "[- n .. - 1] ! k = - int m + int k" using k by (simp add: n)
    have a: "py_index vals (- int m + int k) = vals ! (j + 1)"
    proof -
      have "- int m + int k < 0" using k by simp
      moreover have "nat (int (length vals) + (- int m + int k)) = j + 1"
        using m k by (simp add: L_def j_def nat_eq_iff)
      ultimately show ?thesis by (simp add: py_index_def)
    qed
    have b: "py_index vals (- int m + int k - 1) = vals ! j"
    proof -
      have "- int m + int k - 1 < 0" using k by simp
      moreover have "nat (int (length vals) + (- int m + int k - 1)) = j"
        using m k by (simp add: L_def j_def nat_eq_iff)
      ultimately show ?thesis by (simp add: py_index_def)
    qed
    have c: "drop (length (price_diffs vals) - nat n) (price_diffs vals) ! k
             = price_diffs vals ! j"
      using m k by (simp add: ld n j_def)
    have d: "price_diffs vals ! j = vals ! (j + 1) - vals ! j"
    proof -
      have "j < length vals - 1" using j by (simp add: L_def)
      then show ?thesis by (simp add: price_diffs_def)
    qed
    have "map (\<lambda>i. py_index vals i - py_index vals (i - 1)) [- n .. - 1] ! k
          = py_index vals (- int m + int k) - py_index vals (- int m + int k - 1)"
      using k idx by (simp add: n)
    also have "\<dots> = vals ! (j + 1) - vals ! j" by (simp only: a b)
    also have "\<dots> = drop (length (price_diffs vals) - nat n) (price_diffs vals) ! k"
      by (simp only: c d)
    finally show "map (\<lambda>i. py_index vals i - py_index vals (i - 1)) [- n .. - 1] ! k
          = drop (length (price_diffs vals) - nat n) (price_diffs vals) ! k" .
  qed
qed

text \<open>
  Claim C7. For a series of at least \<open>n + 1\<close> points, \<open>rsi\<close> is the value the
  specification describes: over the last \<open>n\<close> consecutive differences, the sum of the
  gains and the sum of the absolute losses, 100 when the loss sum is zero and
  \<open>100 - 100 / (1 + gains / losses)\<close> otherwise.
\<close>

theorem rsi_formula:
  assumes "n + 1 \<le> int (length vals)"
  shows "rsi vals n = Some (rsi_spec vals n)"
proof -
  have g: "\<not> int (length vals) < n + 1" using assms by simp
  have f: "foldl (rsi_step vals) (0, 0) [- n .. - 1] =
     (sum_list (filter (\<lambda>d. d > 0)
         (drop (length (price_diffs vals) - nat n) (price_diffs vals))),
      sum_list (map abs (filter (\<lambda>d. d < 0)
         (drop (length (price_diffs vals) - nat n) (price_diffs vals)))))"
    using rsi_fold[of vals 0 0 "[- n .. - 1]"] last_diffs[OF assms] by simp
  show ?thesis using g by (simp add: rsi_def rsi_spec_def f Let_def)
qed

theorem rsi_formula_witness:
  "(3::int) + 1 \<le> int (length [10, 1, 2, 4, 3 :: real])
   \<and> rsi [10, 1, 2, 4, 3] 3 = Some (rsi_spec [10, 1, 2, 4, 3] 3)
   \<and> rsi_spec [10, 1, 2, 4, 3] 3 = 75"
  using rsi_formula[of 3 "[10, 1, 2, 4, 3]"]
  by (simp add: rsi_spec_def price_diffs_def Let_def upt_rec)

subsection \<open>Circuit breakers\<close>

text \<open>With equal baselines, as \<^verbatim>\<open>Bot.__init__\<close> sets them and the loop leaves them, the
  daily-loss test (2 percent) is passed before the drawdown test (5 percent) can be
  reached: \<^verbatim>\<open>raise SystemExit(0)\<close> is never executed.\<close>

lemma halt_unreachable:
  "day_start_equity b = start_equity b \<Longrightarrow> circuit_breakers b equity \<noteq> Inl SystemExit"
  by (auto simp add: circuit_breakers_def DAILY_LOSS_LIMIT_def GLOBAL_DD_LIMIT_def)

text \<open>
  Claim C1 says that when the daily-loss condition and the global-drawdown condition hold
  together, the circuit breakers signal Halt, not Pause. The code tests the daily loss
  first: with the equity 6 percent under both baselines (the specification's scenario
  E) both conditions hold, \<open>circuit_breakers\<close> returns \<^verbatim>\<open>True\<close> (the pause) and the cycle
  ends paused, not with SystemExit.
\<close>

theorem circuit_breakers_pause_before_halt:
  "(9400 - 10000) / 10000 \<le> - DAILY_LOSS_LIMIT
   \<and> (9400 - 10000) / 10000 \<le> - GLOBAL_DD_LIMIT
   \<and> circuit_breakers (init_bot inst 10000) 9400 = Inr True
   \<and> cycle dry (gw\<lparr>gw_equity_cb := Inr 9400\<rparr>) (init_bot inst 10000)
       = (init_bot inst 10000, [], Paused)"
  by (simp add: cycle_def circuit_breakers_def init_bot_def DAILY_LOSS_LIMIT_def
      GLOBAL_DD_LIMIT_def)

subsection \<open>The example data, field by field\<close>

lemma bare_snapshot_fields:
  "x_ema200 (bare_snapshot c a) = None" "x_sfast (bare_snapshot c a) = None"
  "x_sslow (bare_snapshot c a) = None" "x_rsi (bare_snapshot c a) = None"
  "x_atr (bare_snapshot c a) = a" "x_close (bare_snapshot c a) = c"
  by (simp_all add: bare_snapshot_def)

lemma long_snapshot_fields:
  "x_ema200 (long_snapshot a) = Some 95" "x_sfast (long_snapshot a) = Some 99"
  "x_sslow (long_snapshot a) = Some 98" "x_rsi (long_snapshot a) = Some 60"
  "x_atr (long_snapshot a) = a" "x_close (long_snapshot a) = 100"
  by (simp_all add: long_snapshot_def)

lemma long_at_97_fields:
  "pos_side long_at_97 = Long" "pos_qty long_at_97 = 1 / 2" "pos_sl long_at_97 = 97"
  by (simp_all add: long_at_97_def)

lemma scenario_c_fields:
  "bot_instrument scenario_c_bot = eth_spec" "bot_position scenario_c_bot = long_at_97"
  "start_equity scenario_c_bot = 10000" "day_start_equity scenario_c_bot = 10000"
  "gw_equity_cb scenario_c_gateway = Inr 10000"
  "gw_klines scenario_c_gateway = Inr scenario_c_klines"
  "gw_equity_sz scenario_c_gateway = Inr 10000"
  by (simp_all add: scenario_c_bot_def scenario_c_gateway_def)

lemma scenario_c_breakers: "circuit_breakers scenario_c_bot 10000 = Inr False"
  by (simp add: circuit_breakers_def scenario_c_fields DAILY_LOSS_LIMIT_def GLOBAL_DD_LIMIT_def)

lemma scenario_c_indicators:
  "compute_indicators scenario_c_klines = Inr (bare_snapshot (193 / 2) None)"
  by (simp add: compute_indicators_def scenario_c_klines_def atr_def ema_def sma_def rsi_def
      bare_snapshot_def ATR_LEN_def EMA_TREND_def SMA_FAST_def SMA_SLOW_def RSI_LEN_def)

lemma scenario_c_decide:
  "decide long_at_97 (bare_snapshot (193 / 2) None) = (Manage, long_at_97)"
  by (simp add: decide_def long_at_97_fields bare_snapshot_fields short_sig_def truthy_def)

lemma scenario_c_trade:
  "trade True scenario_c_gateway eth_spec long_at_97 (bare_snapshot (193 / 2) None)
     = (Position0, [reduce_only Sell (1 / 2)], None)"
  by (simp add: trade_def scenario_c_decide act_def stop_check_def close_position_def send_def
      long_at_97_fields bare_snapshot_fields)

lemma scenario_c_cycle:
  "cycle True scenario_c_gateway scenario_c_bot
     = (scenario_c_bot\<lparr>bot_position := Position0\<rparr>, [reduce_only Sell (1 / 2)], Slept)"
  by (simp add: cycle_def scenario_c_fields scenario_c_breakers scenario_c_indicators
      scenario_c_trade)

lemma long_snapshot_decide: "decide Position0 (long_snapshot a) = (Open_long, Position0)"
  by (simp add: decide_def Position0_def long_snapshot_fields long_sig_def truthy_def
      RSI_LONG_def)

lemma long_snapshot_open:
  "open_position True scenario_c_gateway eth_spec Position0 Long 100 2 =
      (\<lparr>pos_side = Long, pos_entry = 100, pos_qty = 10, pos_sl = 97, pos_tp = 104\<rparr>,
       [place_market_order Long 10 104 97], None)"
proof -
  have sz: "position_sizing eth_spec 10000 100 2 = Inr 10"
    by (simp add: position_sizing_def round_step_def fmt6_def round_half_even_def Let_def
        eth_spec_def RISK_PCT_def ATR_SL_MULT_def MAX_POS_EQUITY_FRAC_def MAX_LEVERAGE_def)
  have br: "bracket_prices eth_spec Long 100 2 = Inr (104, 97)"
    by (simp add: bracket_prices_def round_step_def Let_def eth_spec_def ATR_SL_MULT_def
        ATR_TP_MULT_def)
  show ?thesis
    by (simp add: open_position_def scenario_c_fields sz br send_def Let_def)
qed

lemma long_snapshot_trade:
  "trade True scenario_c_gateway eth_spec Position0 (long_snapshot (Some 2))
     = (\<lparr>pos_side = Long, pos_entry = 100, pos_qty = 10, pos_sl = 97, pos_tp = 104\<rparr>,
        [place_market_order Long 10 104 97], None)"
  by (simp add: trade_def long_snapshot_decide act_def long_snapshot_fields truthy_def
      long_snapshot_open stop_check_def)

text \<open>A whole cycle on the rising market, from a fresh bot with an equity of 10000 and
  \<^verbatim>\<open>DRY_RUN\<close> set: the engine says open long, the size is 10, the bracket 304 and 297.\<close>

lemma rising_market_cycle:
  "cycle True rising_gateway (init_bot eth_spec 10000)
     = ((init_bot eth_spec 10000)
          \<lparr>bot_position :=
             \<lparr>pos_side = Long, pos_entry = 300, pos_qty = 10, pos_sl = 297, pos_tp = 304\<rparr>\<rparr>,
        [place_market_order Long 10 304 297], Slept)"
  by code_simp

subsection \<open>Signal engine\<close>

lemma decide_side: "pos_side (snd (decide p x)) = pos_side p"
  by (simp add: decide_def Let_def)


lemma decide_flat_same: "pos_side p = Flat \<Longrightarrow> snd (decide p x) = p"
  by (simp add: decide_def Let_def)

lemma decide_long_sl:
  "pos_side p = Long \<Longrightarrow> pos_sl (snd (decide p x)) =
     (if truthy (x_atr x) then max (pos_sl p) (x_close x - ATR_SL_MULT * the (x_atr x))
      else pos_sl p)"
  by (simp add: decide_def Let_def max_def)

lemma decide_short_sl:
  "pos_side p = Short \<Longrightarrow> pos_sl (snd (decide p x)) =
     (if truthy (x_atr x) then min (pos_sl p) (x_close x + ATR_SL_MULT * the (x_atr x))
      else pos_sl p)"
  by (simp add: decide_def Let_def min_def)



lemma decide_open_flat:
  "fst (decide p x) = Open_long \<or> fst (decide p x) = Open_short \<Longrightarrow> pos_side p = Flat"
  by (cases "pos_side p") (auto simp add: decide_def Let_def split: if_splits)

text \<open>What \<open>decide\<close> does on a flat position when the four indicators are available and
  none of them is \<^verbatim>\<open>0.0\<close>, and when one of them is missing.\<close>

lemma decide_flat_nonzero:
  assumes "pos_side p = Flat"
    "x_sfast x = Some f" "x_sslow x = Some s" "x_ema200 x = Some e" "x_rsi x = Some r"
    "f \<noteq> 0" "s \<noteq> 0" "e \<noteq> 0" "r \<noteq> 0"
  shows "fst (decide p x) =
     (if f > s \<and> x_close x > e \<and> r > RSI_LONG then Open_long
      else if f < s \<and> x_close x < e \<and> r < RSI_SHORT then Open_short else Hold)"
  using assms by (auto simp add: decide_def long_sig_def short_sig_def truthy_def)

lemma decide_flat_unavailable:
  assumes "pos_side p = Flat"
    "x_sfast x = None \<or> x_sslow x = None \<or> x_ema200 x = None \<or> x_rsi x = None"
  shows "decide p x = (Hold, p)"
  using assms by (auto simp add: decide_def long_sig_def short_sig_def truthy_def)

text \<open>
  Claim C3 says that on a flat position with all four indicators available the engine
  emits openShort exactly when \<open>smaFast < smaSlow\<close>, \<open>close < emaTrend\<close> and
  \<open>rsi < shortThreshold\<close>. The code tests availability by truthiness, and an RSI of
  \<^verbatim>\<open>0.0\<close> is false in Python. In a market that falls on every one of 200 candles the
  indicators are all available, the fast average is under the slow one, the close is
  under the trend average and the RSI is 0, which is less than 45; \<open>decide\<close> returns hold.
\<close>

theorem decide_holds_in_falling_market:
  "(case compute_indicators falling_klines of
      Inl e \<Rightarrow> False
    | Inr x \<Rightarrow>
        x_ema200 x = Some (401 / 2) \<and> x_sfast x = Some (221 / 2) \<and> x_sslow x = Some (251 / 2)
        \<and> x_rsi x = Some 0 \<and> x_atr x = Some 2 \<and> x_close x = 101
        \<and> the (x_sfast x) < the (x_sslow x) \<and> x_close x < the (x_ema200 x)
        \<and> the (x_rsi x) < RSI_SHORT
        \<and> decide Position0 x = (Hold, Position0))"
  by code_simp

text \<open>The same on the snapshot alone.\<close>

lemma decide_ignores_zero_rsi:
  "decide Position0 \<lparr>x_ema200 = Some 100, x_sfast = Some 90, x_sslow = Some 95,
      x_rsi = Some 0, x_atr = Some 1, x_close = 80\<rparr> = (Hold, Position0)"
  by (simp add: decide_def Position0_def long_sig_def short_sig_def truthy_def
      RSI_LONG_def RSI_SHORT_def)

subsection \<open>Trailing stop\<close>

lemma trace_long_sorted:
  "pos_side p = Long \<Longrightarrow>
     sorted (map pos_sl (decide_trace p xs))
     \<and> (\<forall>q \<in> set (decide_trace p xs). pos_side q = Long \<and> pos_sl p \<le> pos_sl q)"
proof (induction xs arbitrary: p)
  case Nil
  then show ?case by simp
next
  case (Cons x xs)
  let ?p1 = "snd (decide p x)"
  have s: "pos_side ?p1 = Long" using Cons.prems by (simp add: decide_side)
  have le: "pos_sl p \<le> pos_sl ?p1" using Cons.prems by (simp add: decide_long_sl)
  from Cons.IH[OF s] le show ?case using Cons.prems by fastforce
qed

lemma trace_short_sorted:
  "pos_side p = Short \<Longrightarrow>
     sorted (rev (map pos_sl (decide_trace p xs)))
     \<and> (\<forall>q \<in> set (decide_trace p xs). pos_side q = Short \<and> pos_sl q \<le> pos_sl p)"
proof (induction xs arbitrary: p)
  case Nil
  then show ?case by simp
next
  case (Cons x xs)
  let ?p1 = "snd (decide p x)"
  have s: "pos_side ?p1 = Short" using Cons.prems by (simp add: decide_side)
  have le: "pos_sl ?p1 \<le> pos_sl p" using Cons.prems by (simp add: decide_short_sl)
  from Cons.IH[OF s] le show ?case using Cons.prems by (fastforce simp: sorted_append)
qed

text \<open>
  Claim C5, as the code has it. Across any sequence of consecutive evaluations of the
  engine on an open long position the stop-loss is non-decreasing, and on an open short
  position non-increasing. One evaluation sets the stop to
  \<open>max currentStop (close - k * atr)\<close> for a long (\<open>min currentStop (close + k * atr)\<close> for
  a short) when the ATR is available and not zero.
\<close>

theorem trailing_stop_monotone:
  "(pos_side pl = Long \<longrightarrow>
       sorted (map pos_sl (decide_trace pl xs))
       \<and> (x_atr x = Some a \<and> a \<noteq> 0 \<longrightarrow>
            pos_sl (snd (decide pl x)) = max (pos_sl pl) (x_close x - ATR_SL_MULT * a)))
   \<and> (pos_side ps = Short \<longrightarrow>
       sorted (rev (map pos_sl (decide_trace ps xs)))
       \<and> (x_atr x = Some a \<and> a \<noteq> 0 \<longrightarrow>
            pos_sl (snd (decide ps x)) = min (pos_sl ps) (x_close x + ATR_SL_MULT * a)))"
proof -
  have l1: "pos_side pl = Long \<longrightarrow> sorted (map pos_sl (decide_trace pl xs))"
    using trace_long_sorted[of pl xs] by blast
  have l2: "pos_side pl = Long \<longrightarrow> (x_atr x = Some a \<and> a \<noteq> 0 \<longrightarrow>
            pos_sl (snd (decide pl x)) = max (pos_sl pl) (x_close x - ATR_SL_MULT * a))"
    by (simp add: decide_long_sl truthy_def)
  have s1: "pos_side ps = Short \<longrightarrow> sorted (rev (map pos_sl (decide_trace ps xs)))"
    using trace_short_sorted[of ps xs] by blast
  have s2: "pos_side ps = Short \<longrightarrow> (x_atr x = Some a \<and> a \<noteq> 0 \<longrightarrow>
            pos_sl (snd (decide ps x)) = min (pos_sl ps) (x_close x + ATR_SL_MULT * a))"
    by (simp add: decide_short_sl truthy_def)
  from l1 l2 s1 s2 show ?thesis by blast
qed

theorem trailing_stop_monotone_witness:
  "pos_side long_at_97 = Long \<and> pos_side short_at_103 = Short
   \<and> x_atr (bare_snapshot 100 (Some 1)) = Some 1 \<and> (1::real) \<noteq> 0
   \<and> sorted (map pos_sl (decide_trace long_at_97
        [bare_snapshot 100 (Some 1), bare_snapshot 103 None, bare_snapshot 99 (Some 1)]))
   \<and> pos_sl (snd (decide long_at_97 (bare_snapshot 100 (Some 1))))
        = max (pos_sl long_at_97) (x_close (bare_snapshot 100 (Some 1)) - ATR_SL_MULT * 1)
   \<and> sorted (rev (map pos_sl (decide_trace short_at_103
        [bare_snapshot 100 (Some 1), bare_snapshot 103 None, bare_snapshot 99 (Some 1)])))
   \<and> pos_sl (snd (decide short_at_103 (bare_snapshot 100 (Some 1))))
        = min (pos_sl short_at_103) (x_close (bare_snapshot 100 (Some 1)) + ATR_SL_MULT * 1)"
proof -
  have hl: "pos_side long_at_97 = Long" by (simp add: long_at_97_def)
  have hs: "pos_side short_at_103 = Short" by (simp add: short_at_103_def)
  have ha: "x_atr (bare_snapshot 100 (Some 1)) = Some 1" by (simp add: bare_snapshot_def)
  have h1: "(1::real) \<noteq> 0" by simp
  from trailing_stop_monotone[of long_at_97
      "[bare_snapshot 100 (Some 1), bare_snapshot 103 None, bare_snapshot 99 (Some 1)]"
      "bare_snapshot 100 (Some 1)" 1 short_at_103] hl hs ha h1
  show ?thesis by blast
qed

text \<open>Claim C5 as stated also says that the stop is updated to
  \<open>max currentStop (close - k * atr)\<close> whenever the ATR is available. An ATR of \<^verbatim>\<open>0.0\<close>
  (every true range zero) is available, but \<^verbatim>\<open>if x["atr"]:\<close> is false for it: a long with
  its stop at 97 and the close at 100 keeps the stop at 97, where the formula gives 100.\<close>

theorem trailing_stop_zero_atr_counterexample:
  "x_atr (bare_snapshot 100 (Some 0)) = Some 0
   \<and> pos_sl (snd (decide long_at_97 (bare_snapshot 100 (Some 0)))) = 97
   \<and> max (pos_sl long_at_97) (x_close (bare_snapshot 100 (Some 0)) - ATR_SL_MULT * 0) = 100
   \<and> pos_sl (snd (decide long_at_97 (bare_snapshot 100 (Some 0))))
       \<noteq> max (pos_sl long_at_97) (x_close (bare_snapshot 100 (Some 0)) - ATR_SL_MULT * 0)"
  by (simp add: decide_def truthy_def long_sig_def short_sig_def long_at_97_def
      bare_snapshot_def)

subsection \<open>The trading cycle\<close>

lemma open_position_orders:
  "open_position dry gw inst p sd price a = (p', os, err) \<Longrightarrow> od \<in> set os \<Longrightarrow> \<not> ord_reduce_only od"
  by (auto simp add: open_position_def place_market_order_def Let_def split: sum.splits option.splits prod.splits)

lemma stop_check_orders:
  "stop_check dry gw p price = (p', ords, err) \<Longrightarrow> od \<in> set ords \<Longrightarrow> ord_reduce_only od"
  by (auto simp add: stop_check_def close_position_def reduce_only_def Let_def split: option.splits if_splits)

text \<open>
  Claim C10. In a cycle in which the engine emits openLong or openShort while the ATR is
  unavailable, the loop hands no order to the exchange and leaves the position as it
  was. Every order that is not reduce-only (an entry) is placed with an ATR that is
  available, and not zero.
\<close>

theorem no_entry_without_atr:
  "((fst (decide p x) = Open_long \<or> fst (decide p x) = Open_short) \<and> x_atr x = None
      \<longrightarrow> trade dry gw inst p x = (p, [], None))
   \<and> (\<forall>ord \<in> set (fst (snd (trade dry gw inst p x))).
         \<not> ord_reduce_only ord \<longrightarrow> (\<exists>a. x_atr x = Some a \<and> a \<noteq> 0))"
proof -
  have part1: "trade dry gw inst p x = (p, [], None)"
    if h: "(fst (decide p x) = Open_long \<or> fst (decide p x) = Open_short) \<and> x_atr x = None"
  proof -
    from h have flat: "pos_side p = Flat" using decide_open_flat by blast
    then have same: "snd (decide p x) = p" by (rule decide_flat_same)
    obtain a where d: "decide p x = (a, p)" and a: "a = Open_long \<or> a = Open_short"
      using h same by (cases "decide p x") auto
    have "act dry gw inst p x a = (p, [], None)"
      using h a by (auto simp add: act_def truthy_def)
    moreover have "stop_check dry gw p (x_close x) = (p, [], None)"
      using flat by (simp add: stop_check_def)
    ultimately show ?thesis using d by (simp add: trade_def)
  qed
  have part2: "\<exists>a. x_atr x = Some a \<and> a \<noteq> 0"
    if m: "ord \<in> set (fst (snd (trade dry gw inst p x)))" and r: "\<not> ord_reduce_only ord" for ord
  proof (rule ccontr)
    assume "\<not> (\<exists>a. x_atr x = Some a \<and> a \<noteq> 0)"
    then have nt: "\<not> truthy (x_atr x)" by (auto simp add: truthy_def split: option.splits)
    obtain a p1 where d: "decide p x = (a, p1)" by (cases "decide p x")
    obtain p2 os2 e2 where ac: "act dry gw inst p1 x a = (p2, os2, e2)" by (cases "act dry gw inst p1 x a")
    obtain p3 os3 e3 where sc: "stop_check dry gw p2 (x_close x) = (p3, os3, e3)"
      by (cases "stop_check dry gw p2 (x_close x)")
    have o2: "\<forall>od \<in> set os2. ord_reduce_only od"
      using ac nt by (auto simp add: act_def close_position_def reduce_only_def Let_def split: if_splits option.splits)
    have o3: "\<forall>od \<in> set os3. ord_reduce_only od" using sc stop_check_orders by blast
    have "set (fst (snd (trade dry gw inst p x))) \<subseteq> set os2 \<union> set os3"
      using d ac sc by (cases e2) (auto simp add: trade_def)
    with m o2 o3 r show False by blast
  qed
  from part1 part2 show ?thesis by blast
qed

theorem no_entry_without_atr_witness:
  "fst (decide Position0 (long_snapshot None)) = Open_long \<and> x_atr (long_snapshot None) = None
   \<and> trade True scenario_c_gateway eth_spec Position0 (long_snapshot None) = (Position0, [], None)
   \<and> fst (snd (trade True scenario_c_gateway eth_spec Position0 (long_snapshot (Some 2))))
       = [place_market_order Long 10 104 97]
   \<and> \<not> ord_reduce_only (place_market_order Long 10 104 97)
   \<and> (\<exists>a. x_atr (long_snapshot (Some 2)) = Some a \<and> a \<noteq> 0)"
proof -
  have d: "fst (decide Position0 (long_snapshot None)) = Open_long"
    by (simp add: long_snapshot_decide)
  have n: "x_atr (long_snapshot None) = None" by (simp add: long_snapshot_fields)
  have t: "fst (snd (trade True scenario_c_gateway eth_spec Position0 (long_snapshot (Some 2))))
       = [place_market_order Long 10 104 97]"
    by (simp add: long_snapshot_trade)
  have r: "\<not> ord_reduce_only (place_market_order Long 10 104 97)"
    by (simp add: place_market_order_def)
  have m: "place_market_order Long 10 104 97
      \<in> set (fst (snd (trade True scenario_c_gateway eth_spec Position0 (long_snapshot (Some 2)))))"
    by (simp add: t)
  from no_entry_without_atr[of Position0 "long_snapshot None" True scenario_c_gateway eth_spec]
    d n
  have a: "trade True scenario_c_gateway eth_spec Position0 (long_snapshot None)
      = (Position0, [], None)" by blast
  from no_entry_without_atr[of Position0 "long_snapshot (Some 2)" True scenario_c_gateway
      eth_spec] m r
  have b: "\<exists>a. x_atr (long_snapshot (Some 2)) = Some a \<and> a \<noteq> 0" by blast
  from d n a t r b show ?thesis by blast
qed

subsection \<open>The position invariant\<close>

lemma open_position_inv:
  "sd \<noteq> Flat \<Longrightarrow> pos_inv p \<Longrightarrow> pos_inv (fst (open_position dry gw inst p sd price a))"
  by (simp add: open_position_def pos_inv_def Let_def split: sum.splits option.splits prod.splits)

lemma close_position_inv:
  "pos_inv p \<Longrightarrow> pos_inv (fst (close_position dry gw p os))"
  by (simp add: close_position_def pos_inv_def Position0_def Let_def split: option.splits)

lemma act_inv: "pos_inv p \<Longrightarrow> pos_inv (fst (act dry gw inst p x a))"
  by (simp add: act_def Let_def open_position_inv close_position_inv)

lemma stop_check_inv: "pos_inv p \<Longrightarrow> pos_inv (fst (stop_check dry gw p price))"
  by (simp add: stop_check_def close_position_inv)

lemma decide_inv: "pos_inv p \<Longrightarrow> pos_inv (snd (decide p x))"
proof (cases "pos_side p = Flat")
  case True
  assume "pos_inv p"
  with True show ?thesis by (simp add: decide_flat_same)
next
  case False
  then show ?thesis by (simp add: pos_inv_def decide_side)
qed

lemma trade_inv:
  assumes "pos_inv p"
  shows "pos_inv (fst (trade dry gw inst p x))"
proof -
  obtain a p1 where d: "decide p x = (a, p1)" by (cases "decide p x")
  obtain p2 os2 e2 where ac: "act dry gw inst p1 x a = (p2, os2, e2)"
    by (cases "act dry gw inst p1 x a")
  obtain p3 os3 e3 where sc: "stop_check dry gw p2 (x_close x) = (p3, os3, e3)"
    by (cases "stop_check dry gw p2 (x_close x)")
  have i1: "pos_inv p1" using decide_inv[OF assms, of x] d by simp
  have i2: "pos_inv p2" using act_inv[OF i1, of dry gw inst x a] ac by simp
  have i3: "pos_inv p3" using stop_check_inv[OF i2, of dry gw "x_close x"] sc by simp
  show ?thesis using d ac sc i2 i3 by (cases e2) (simp_all add: trade_def)
qed

lemma cycle_cases:
  "(\<exists>out. cycle dry gw b = (b, [], out))
   \<or> (\<exists>x p os err. trade dry gw (bot_instrument b) (bot_position b) x = (p, os, err)
         \<and> cycle dry gw b = (b\<lparr>bot_position := p\<rparr>, os,
               case err of None \<Rightarrow> Slept | Some e \<Rightarrow> raised e))"
proof (cases "gw_equity_cb gw")
  case (Inl e)
  then show ?thesis by (simp add: cycle_def)
next
  case eq: (Inr equity)
  show ?thesis
  proof (cases "circuit_breakers b equity")
    case (Inl e)
    with eq show ?thesis by (simp add: cycle_def)
  next
    case cb: (Inr pause)
    show ?thesis
    proof (cases pause)
      case True
      with eq cb show ?thesis by (simp add: cycle_def)
    next
      case False
      show ?thesis
      proof (cases "gw_klines gw")
        case (Inl e)
        with eq cb False show ?thesis by (simp add: cycle_def)
      next
        case kl: (Inr k)
        show ?thesis
        proof (cases "compute_indicators k")
          case (Inl e)
          with eq cb False kl show ?thesis by (simp add: cycle_def)
        next
          case (Inr x)
          obtain p os err where
            t: "trade dry gw (bot_instrument b) (bot_position b) x = (p, os, err)"
            by (cases "trade dry gw (bot_instrument b) (bot_position b) x")
          have "cycle dry gw b = (b\<lparr>bot_position := p\<rparr>, os,
               case err of None \<Rightarrow> Slept | Some e \<Rightarrow> raised e)"
            using eq cb False kl Inr t by (simp add: cycle_def)
          with t show ?thesis by blast
        qed
      qed
    qed
  qed
qed

lemma cycle_inv:
  assumes "pos_inv (bot_position b)"
  shows "pos_inv (bot_position (fst (cycle dry gw b)))"
proof -
  from cycle_cases[of dry gw b] show ?thesis
  proof
    assume "\<exists>out. cycle dry gw b = (b, [], out)"
    with assms show ?thesis by auto
  next
    assume "\<exists>x p os err. trade dry gw (bot_instrument b) (bot_position b) x = (p, os, err)
         \<and> cycle dry gw b = (b\<lparr>bot_position := p\<rparr>, os,
               case err of None \<Rightarrow> Slept | Some e \<Rightarrow> raised e)"
    then obtain x p os err where
      t: "trade dry gw (bot_instrument b) (bot_position b) x = (p, os, err)" and
      c: "cycle dry gw b = (b\<lparr>bot_position := p\<rparr>, os,
               case err of None \<Rightarrow> Slept | Some e \<Rightarrow> raised e)" by blast
    have "pos_inv p" using trade_inv[OF assms, of dry gw "bot_instrument b" x] t by simp
    with c show ?thesis by simp
  qed
qed

lemma loop_inv:
  "pos_inv (bot_position b) \<Longrightarrow> pos_inv (bot_position (fst (loop dry b gws)))"
proof (induction gws arbitrary: b)
  case Nil
  then show ?case by simp
next
  case (Cons gw gws)
  obtain b1 os1 out where c: "cycle dry gw b = (b1, os1, out)" by (cases "cycle dry gw b")
  have i1: "pos_inv (bot_position b1)" using cycle_inv[OF Cons.prems, of dry gw] c by simp
  obtain b2 os2 left where l: "loop dry b1 gws = (b2, os2, left)" by (cases "loop dry b1 gws")
  have "pos_inv (bot_position b2)" using Cons.IH[OF i1] l by simp
  then show ?case using c l i1 by simp
qed

lemma trade_entry_only_flat:
  assumes "od \<in> set (fst (snd (trade dry gw inst p x)))" "\<not> ord_reduce_only od"
  shows "pos_side p = Flat"
proof (rule ccontr)
  assume nf: "pos_side p \<noteq> Flat"
  obtain a p1 where d: "decide p x = (a, p1)" by (cases "decide p x")
  have a: "a \<noteq> Open_long \<and> a \<noteq> Open_short" using decide_open_flat[of p x] nf d by auto
  obtain p2 os2 e2 where ac: "act dry gw inst p1 x a = (p2, os2, e2)"
    by (cases "act dry gw inst p1 x a")
  obtain p3 os3 e3 where sc: "stop_check dry gw p2 (x_close x) = (p3, os3, e3)"
    by (cases "stop_check dry gw p2 (x_close x)")
  have o2: "\<forall>od \<in> set os2. ord_reduce_only od"
    using ac a by (auto simp add: act_def close_position_def reduce_only_def Let_def split: if_splits option.splits)
  have o3: "\<forall>od \<in> set os3. ord_reduce_only od" using sc stop_check_orders by blast
  have "set (fst (snd (trade dry gw inst p x))) \<subseteq> set os2 \<union> set os3"
    using d ac sc by (cases e2) (auto simp add: trade_def)
  with assms o2 o3 show False by blast
qed

lemma cycle_orders:
  assumes "od \<in> set (fst (snd (cycle dry gw b)))"
  shows "\<exists>x. od \<in> set (fst (snd (trade dry gw (bot_instrument b) (bot_position b) x)))"
proof -
  from cycle_cases[of dry gw b] show ?thesis
  proof
    assume "\<exists>out. cycle dry gw b = (b, [], out)"
    with assms show ?thesis by auto
  next
    assume "\<exists>x p os err. trade dry gw (bot_instrument b) (bot_position b) x = (p, os, err)
         \<and> cycle dry gw b = (b\<lparr>bot_position := p\<rparr>, os,
               case err of None \<Rightarrow> Slept | Some e \<Rightarrow> raised e)"
    then obtain x p os err where
      t: "trade dry gw (bot_instrument b) (bot_position b) x = (p, os, err)" and
      c: "cycle dry gw b = (b\<lparr>bot_position := p\<rparr>, os,
               case err of None \<Rightarrow> Slept | Some e \<Rightarrow> raised e)" by blast
    from assms c have "od \<in> set os" by simp
    with t have "od \<in> set (fst (snd (trade dry gw (bot_instrument b) (bot_position b) x)))"
      by simp
    then show ?thesis by blast
  qed
qed

text \<open>
  Claim C9. The position invariant (a flat position has quantity, stop-loss and
  take-profit 0) holds after \<^verbatim>\<open>Bot.__init__\<close> and is preserved by \<open>decide\<close>, by one cycle
  of the loop and by any number of cycles, whatever the exchange answers. There is one
  position record, and an entry order (one that is not reduce-only) is submitted only in
  a cycle that starts flat: the bot never opens a second position on top of one.
\<close>

theorem position_invariant_preserved:
  "pos_inv (bot_position (init_bot inst equity))
   \<and> (pos_inv p \<longrightarrow> pos_inv (snd (decide p x)))
   \<and> (pos_inv (bot_position b) \<longrightarrow>
        pos_inv (bot_position (fst (cycle dry gw b)))
        \<and> pos_inv (bot_position (fst (loop dry b gws))))
   \<and> (\<forall>od \<in> set (fst (snd (cycle dry gw b))).
         \<not> ord_reduce_only od \<longrightarrow> pos_side (bot_position b) = Flat)"
proof -
  have a: "pos_inv (bot_position (init_bot inst equity))"
    by (simp add: init_bot_def Position0_def pos_inv_def)
  have d: "\<forall>od \<in> set (fst (snd (cycle dry gw b))).
         \<not> ord_reduce_only od \<longrightarrow> pos_side (bot_position b) = Flat"
    using cycle_orders trade_entry_only_flat by blast
  from a d decide_inv cycle_inv loop_inv show ?thesis by blast
qed

theorem position_invariant_preserved_witness:
  "pos_inv (bot_position (init_bot eth_spec 10000)) \<and> pos_inv Position0
   \<and> pos_inv (snd (decide Position0 (long_snapshot (Some 2))))
   \<and> pos_inv (bot_position (fst (cycle True rising_gateway (init_bot eth_spec 10000))))
   \<and> pos_inv (bot_position (fst (loop True (init_bot eth_spec 10000)
                                    [rising_gateway, rising_gateway])))
   \<and> place_market_order Long 10 304 297
        \<in> set (fst (snd (cycle True rising_gateway (init_bot eth_spec 10000))))
   \<and> \<not> ord_reduce_only (place_market_order Long 10 304 297)
   \<and> pos_side (bot_position (init_bot eth_spec 10000)) = Flat"
proof -
  have i0: "pos_inv Position0" by (simp add: pos_inv_def Position0_def)
  have m: "place_market_order Long 10 304 297
        \<in> set (fst (snd (cycle True rising_gateway (init_bot eth_spec 10000))))"
    by (simp add: rising_market_cycle)
  have r: "\<not> ord_reduce_only (place_market_order Long 10 304 297)"
    by (simp add: place_market_order_def)
  from position_invariant_preserved[of eth_spec 10000 Position0 "long_snapshot (Some 2)"
        "init_bot eth_spec 10000" True rising_gateway "[rising_gateway, rising_gateway]"]
    i0 m r
  show ?thesis by blast
qed

subsection \<open>The client-side stop\<close>




subsection \<open>Sizing and brackets\<close>











end
